theory Spec2Isabelle
  imports Main
begin

section \<open>Library functions of the Go runtime used by the sources\<close>

text \<open>\<^verbatim>\<open>strings.Split(s, sep)\<close> for a one-character separator: the pieces between
  every occurrence of the separator; a string without the separator (also the empty
  string) gives one piece.\<close>

fun Split :: "string \<Rightarrow> char \<Rightarrow> string list" where
  "Split [] sep = [[]]"
| "Split (c # cs) sep =
     (if c = sep then [] # Split cs sep
      else (case Split cs sep of [] \<Rightarrow> [[c]] | p # ps \<Rightarrow> (c # p) # ps))"

text \<open>\<^verbatim>\<open>strings.SplitN(s, sep, n)\<close> for a one-character separator and \<open>n > 0\<close>: at
  most \<open>n\<close> pieces, the last one holding the unsplit rest.\<close>

fun SplitN :: "string \<Rightarrow> char \<Rightarrow> nat \<Rightarrow> string list" where
  "SplitN s sep 0 = []"
| "SplitN s sep (Suc 0) = [s]"
| "SplitN [] sep (Suc (Suc n)) = [[]]"
| "SplitN (c # cs) sep (Suc (Suc n)) =
     (if c = sep then [] # SplitN cs sep (Suc n)
      else (case SplitN cs sep (Suc (Suc n)) of [] \<Rightarrow> [[c]] | p # ps \<Rightarrow> (c # p) # ps))"

text \<open>\<^verbatim>\<open>strings.HasPrefix\<close> and \<^verbatim>\<open>strings.Contains\<close> (a substring test, no regex).\<close>

fun HasPrefix :: "string \<Rightarrow> string \<Rightarrow> bool" where
  "HasPrefix s [] = True"
| "HasPrefix [] (p # ps) = False"
| "HasPrefix (c # cs) (p # ps) = (c = p \<and> HasPrefix cs ps)"

fun Contains :: "string \<Rightarrow> string \<Rightarrow> bool" where
  "Contains [] substr = (substr = [])"
| "Contains (c # cs) substr = (HasPrefix (c # cs) substr \<or> Contains cs substr)"





text \<open>\<^verbatim>\<open>strconv.Atoi\<close>: an optional sign, then one or more decimal digits; the value
  must fit Go's 64-bit \<^verbatim>\<open>int\<close>. \<open>None\<close> is the error return.\<close>

definition isDigit :: "char \<Rightarrow> bool" where
  "isDigit c = (c \<in> set ''0123456789'')"

fun digits_value :: "nat \<Rightarrow> string \<Rightarrow> nat" where
  "digits_value acc [] = acc"
| "digits_value acc (c # cs) = digits_value (10 * acc + (of_char c - 48)) cs"

definition Atoi :: "string \<Rightarrow> int option" where
  "Atoi s =
     (let neg = (case s of [] \<Rightarrow> False | c # r \<Rightarrow> c = CHR ''-'');
          ds = (case s of [] \<Rightarrow> [] | c # r \<Rightarrow> if c = CHR ''-'' \<or> c = CHR ''+'' then r else s)
      in if ds = [] \<or> \<not> list_all isDigit ds then None
         else let n = (if neg then - int (digits_value 0 ds) else int (digits_value 0 ds))
              in if n < - (2 ^ 63) \<or> 2 ^ 63 - 1 < n then None else Some n)"

text \<open>\<^verbatim>\<open>strings.ReplaceAll(s, "\x00", " ")\<close>.\<close>

definition ReplaceAll_nul :: "string \<Rightarrow> string" where
  "ReplaceAll_nul s = map (\<lambda>c. if c = CHR 0x00 then CHR '' '' else c) s"

section \<open>Package proc: the process-tree inspector over /proc\<close>

text \<open>One sample of the kernel's process records, as the package reads them:
  the entries of \<^verbatim>\<open>/proc\<close> (name, is-directory) or the failure of
  \<^verbatim>\<open>os.ReadDir\<close>, and per PID the contents of
  \<^verbatim>\<open>/proc/<pid>/task/<pid>/children\<close> and \<^verbatim>\<open>/proc/<pid>/cmdline\<close>, \<open>None\<close> when
  \<^verbatim>\<open>os.ReadFile\<close> fails.\<close>

record procfs =
  ReadDir_proc :: "(string \<times> bool) list option"
  children_file :: "int \<Rightarrow> string option"
  cmdline_file :: "int \<Rightarrow> string option"





definition getCmdline :: "procfs \<Rightarrow> int \<Rightarrow> string" where
  "getCmdline fs p = (case cmdline_file fs p of None \<Rightarrow> [] | Some data \<Rightarrow> ReplaceAll_nul data)"

fun count_entries :: "procfs \<Rightarrow> string \<Rightarrow> (string \<times> bool) list \<Rightarrow> int \<Rightarrow> int" where
  "count_entries fs pattern [] count = count"
| "count_entries fs pattern ((name, isDir) # entries) count =
     (if \<not> isDir then count_entries fs pattern entries count
      else (case Atoi name of
              None \<Rightarrow> count_entries fs pattern entries count
            | Some p \<Rightarrow>
                if Contains (getCmdline fs p) pattern
                then count_entries fs pattern entries (count + 1)
                else count_entries fs pattern entries count))"

definition CountByPattern :: "procfs \<Rightarrow> string \<Rightarrow> int" where
  "CountByPattern fs pattern =
     (case ReadDir_proc fs of None \<Rightarrow> 0 | Some entries \<Rightarrow> count_entries fs pattern entries 0)"

fun find_entries :: "procfs \<Rightarrow> string \<Rightarrow> (string \<times> bool) list \<Rightarrow> int list \<Rightarrow> int list" where
  "find_entries fs pattern [] pids = pids"
| "find_entries fs pattern ((name, isDir) # entries) pids =
     (if \<not> isDir then find_entries fs pattern entries pids
      else (case Atoi name of
              None \<Rightarrow> find_entries fs pattern entries pids
            | Some p \<Rightarrow>
                if Contains (getCmdline fs p) pattern
                then find_entries fs pattern entries (pids @ [p])
                else find_entries fs pattern entries pids))"

definition FindByPattern :: "procfs \<Rightarrow> string \<Rightarrow> int list" where
  "FindByPattern fs pattern =
     (case ReadDir_proc fs of None \<Rightarrow> [] | Some entries \<Rightarrow> find_entries fs pattern entries [])"

text \<open>\<^verbatim>\<open>syscall.Kill\<close> is the one way the package changes anything. A run of the
  program sees the machine as a value of type \<open>'w\<close>: \<open>procfs_of\<close> samples /proc,
  \<open>Kill w pid sig\<close> returns the error of the system call (\<open>None\<close> is \<^verbatim>\<open>nil\<close>) and
  the machine after it, \<open>Sleep w ms\<close> is the machine after \<^verbatim>\<open>time.Sleep\<close> of
  \<open>ms\<close> milliseconds (other actors may have changed it), \<open>LookPath\<close> is
  \<^verbatim>\<open>exec.LookPath\<close> succeeding.\<close>

datatype errno = EPERM | ESRCH | EINVAL

record 'w OS =
  procfs_of :: "'w \<Rightarrow> procfs"
  Kill :: "'w \<Rightarrow> int \<Rightarrow> int \<Rightarrow> errno option \<times> 'w"
  Sleep :: "'w \<Rightarrow> nat \<Rightarrow> 'w"
  LookPath :: "'w \<Rightarrow> string \<Rightarrow> bool"

definition SIGKILL :: int where "SIGKILL = 9"
definition SIGTERM :: int where "SIGTERM = 15"

definition Signal :: "'w OS \<Rightarrow> 'w \<Rightarrow> int \<Rightarrow> int \<Rightarrow> errno option \<times> 'w" where
  "Signal os w p sig = Kill os w p sig"

fun SignalAll_loop :: "'w OS \<Rightarrow> int \<Rightarrow> int list \<Rightarrow> int \<Rightarrow> 'w \<Rightarrow> int \<times> 'w" where
  "SignalAll_loop os sig [] sent w = (sent, w)"
| "SignalAll_loop os sig (p # pids) sent w =
     (case Kill os w p sig of
        (err, w') \<Rightarrow> SignalAll_loop os sig pids (if err = None then sent + 1 else sent) w')"

definition SignalAll :: "'w OS \<Rightarrow> 'w \<Rightarrow> int list \<Rightarrow> int \<Rightarrow> int \<times> 'w" where
  "SignalAll os w pids sig = SignalAll_loop os sig pids 0 w"

definition Exists :: "'w OS \<Rightarrow> 'w \<Rightarrow> int \<Rightarrow> bool" where
  "Exists os w p = (fst (Kill os w p 0) = None)"

subsection \<open>The kill(2) contract\<close>

text \<open>What the system call answers for a positive PID, as kill(2) documents it: a
  PID that names no process is \<open>ESRCH\<close>, an invalid signal number is \<open>EINVAL\<close>, a
  process the caller may not signal is \<open>EPERM\<close>, anything else succeeds. The call
  itself leaves the table as it is: signal 0 delivers nothing, and what a delivered
  signal does to its target (a killed process stays in the table until it is
  reaped) happens after the call has returned.\<close>

record kernel =
  running :: "int \<Rightarrow> bool"
  may_signal :: "int \<Rightarrow> bool"

definition kill2 :: "kernel \<Rightarrow> int \<Rightarrow> int \<Rightarrow> errno option \<times> kernel" where
  "kill2 k p sig =
     (if \<not> running k p then (Some ESRCH, k)
      else if sig < 0 \<or> 64 < sig then (Some EINVAL, k)
      else if \<not> may_signal k p then (Some EPERM, k)
      else (None, k))"

definition kernel_OS :: "kernel OS" where
  "kernel_OS = \<lparr>procfs_of = (\<lambda>k. \<lparr>ReadDir_proc = None, children_file = (\<lambda>p. None),
                                   cmdline_file = (\<lambda>p. None)\<rparr>),
                Kill = kill2, Sleep = (\<lambda>k ms. k), LookPath = (\<lambda>k name. False)\<rparr>"

section \<open>Package beads: stopping the bd daemon and activity processes\<close>

datatype error =
    Errno errno
  | Failure string
  | FailedToListPanePIDs error
  | FailedToKillPID int error
  | DaemonShutdownIncomplete int
  | ActivityShutdownIncomplete int

definition gracefulTimeout :: nat where
  "gracefulTimeout = 2000"

definition CountBdDaemons :: "'w OS \<Rightarrow> 'w \<Rightarrow> int" where
  "CountBdDaemons os w = CountByPattern (procfs_of os w) ''bd daemon''"

text \<open>The two stop passes; \<open>n_before\<close> is the variable \<^verbatim>\<open>before\<close> of the source.\<close>

definition stopBdDaemons :: "'w OS \<Rightarrow> bool \<Rightarrow> 'w \<Rightarrow> (int \<times> int) \<times> 'w" where
  "stopBdDaemons os force w =
     (let n_before = CountBdDaemons os w in
      if n_before = 0 then ((0, 0), w)
      else
        let pids = FindByPattern (procfs_of os w) ''bd daemon'';
            w1 = (if force then snd (SignalAll os w pids SIGKILL)
                  else
                    let w' = Sleep os (snd (SignalAll os w pids SIGTERM)) gracefulTimeout in
                    if CountBdDaemons os w' > 0
                    then snd (SignalAll os w' (FindByPattern (procfs_of os w') ''bd daemon'') SIGKILL)
                    else w');
            w2 = Sleep os w1 100;
            final = CountBdDaemons os w2;
            killed = n_before - final
        in ((if killed < 0 then 0 else killed, final), w2))"

definition CountBdActivityProcesses :: "'w OS \<Rightarrow> 'w \<Rightarrow> int" where
  "CountBdActivityProcesses os w = CountByPattern (procfs_of os w) ''bd activity''"

definition stopBdActivityProcesses :: "'w OS \<Rightarrow> bool \<Rightarrow> 'w \<Rightarrow> (int \<times> int) \<times> 'w" where
  "stopBdActivityProcesses os force w =
     (let n_before = CountBdActivityProcesses os w in
      if n_before = 0 then ((0, 0), w)
      else
        let pids = FindByPattern (procfs_of os w) ''bd activity'';
            w1 = (if force then snd (SignalAll os w pids SIGKILL)
                  else
                    let w' = Sleep os (snd (SignalAll os w pids SIGTERM)) gracefulTimeout in
                    if CountBdActivityProcesses os w' > 0
                    then snd (SignalAll os w' (FindByPattern (procfs_of os w') ''bd activity'') SIGKILL)
                    else w');
            w2 = Sleep os w1 100;
            after = CountBdActivityProcesses os w2;
            killed = n_before - after
        in ((if killed < 0 then 0 else killed, after), w2))"

text \<open>\<^verbatim>\<open>StopAllBdProcesses\<close> returns (daemonsKilled, activityKilled, error).\<close>

definition StopAllBdProcesses ::
  "'w OS \<Rightarrow> bool \<Rightarrow> bool \<Rightarrow> 'w \<Rightarrow> (int \<times> int \<times> error option) \<times> 'w" where
  "StopAllBdProcesses os dryRun force w =
     (if \<not> LookPath os w ''bd'' then ((0, 0, None), w)
      else
        let daemonsBefore = CountBdDaemons os w;
            activityBefore = CountBdActivityProcesses os w
        in if dryRun then ((daemonsBefore, activityBefore, None), w)
           else
             (case stopBdDaemons os force w of
                ((daemonsKilled, daemonsRemaining), w1) \<Rightarrow>
                  (case stopBdActivityProcesses os force w1 of
                     ((activityKilled, activityRemaining), w2) \<Rightarrow>
                       if daemonsRemaining > 0
                       then ((daemonsKilled, activityKilled,
                              Some (DaemonShutdownIncomplete daemonsRemaining)), w2)
                       else if activityRemaining > 0
                       then ((daemonsKilled, activityKilled,
                              Some (ActivityShutdownIncomplete activityRemaining)), w2)
                       else ((daemonsKilled, activityKilled, None), w2))))"

section \<open>Package doctor: the orphan-session check\<close>

datatype CheckStatus = StatusOK | StatusWarning

record CheckContext =
  TownRoot :: string
  DryRun :: bool

text \<open>What the check asks of its collaborators, each a read of, or an action on, the
  machine \<open>'w\<close>: \<open>ListSessions\<close> is the \<^verbatim>\<open>SessionLister\<close> interface (names and
  error), \<open>KillSession\<close> is \<^verbatim>\<open>tmux.KillSession\<close>, \<open>getValidRigs\<close> scans the town
  root, \<open>MayorSessionName\<close> and \<open>DeaconSessionName\<close> come from package session.\<close>

record 'w SessionEnv =
  ListSessions :: "'w \<Rightarrow> string list \<times> error option"
  KillSession :: "'w \<Rightarrow> string \<Rightarrow> error option \<times> 'w"
  getValidRigs :: "'w \<Rightarrow> string \<Rightarrow> string list"
  MayorSessionName :: string
  DeaconSessionName :: string

record OrphanSessionCheck =
  orphanSessions :: "string list"

definition isValidSession :: "string \<Rightarrow> string list \<Rightarrow> string \<Rightarrow> string \<Rightarrow> bool" where
  "isValidSession sess validRigs mayorSession deaconSession =
     (if mayorSession \<noteq> [] \<and> sess = mayorSession then True
      else if deaconSession \<noteq> [] \<and> sess = deaconSession then True
      else
        let parts = SplitN sess CHR ''-'' 3 in
        if length parts < 3 then False
        else
          let rigName = parts ! 1;
              rigFound = (rigName \<in> set validRigs)
          in if \<not> rigFound then False
             else
               let role = parts ! 2 in
               if role = ''witness'' \<or> role = ''refinery'' then True else True)"

text \<open>The loop of \<^verbatim>\<open>Run\<close> over the listed sessions, with its two accumulators.\<close>

fun classify_sessions ::
  "string list \<Rightarrow> string list \<Rightarrow> string \<Rightarrow> string \<Rightarrow> string list \<Rightarrow> int \<Rightarrow> string list \<times> int" where
  "classify_sessions [] validRigs mayorSession deaconSession orphans validCount =
     (orphans, validCount)"
| "classify_sessions (sess # sessions) validRigs mayorSession deaconSession orphans validCount =
     (if sess = [] then
        classify_sessions sessions validRigs mayorSession deaconSession orphans validCount
      else if \<not> HasPrefix sess ''gt-'' then
        classify_sessions sessions validRigs mayorSession deaconSession orphans validCount
      else if isValidSession sess validRigs mayorSession deaconSession then
        classify_sessions sessions validRigs mayorSession deaconSession orphans (validCount + 1)
      else
        classify_sessions sessions validRigs mayorSession deaconSession (orphans @ [sess]) validCount)"

text \<open>\<^verbatim>\<open>OrphanSessionCheck.Run\<close>: the status of the result and the check with its
  cache. The two early returns leave the cache as it was.\<close>

definition Run_sessions ::
  "'w SessionEnv \<Rightarrow> OrphanSessionCheck \<Rightarrow> CheckContext \<Rightarrow> 'w \<Rightarrow> CheckStatus \<times> OrphanSessionCheck" where
  "Run_sessions env c ctx w =
     (case ListSessions env w of
        (sessions, err) \<Rightarrow>
          if err \<noteq> None then (StatusWarning, c)
          else if length sessions = 0 then (StatusOK, c)
          else
            let validRigs = getValidRigs env w (TownRoot ctx);
                mayorSession = MayorSessionName env;
                deaconSession = DeaconSessionName env;
                orphans = fst (classify_sessions sessions validRigs mayorSession deaconSession [] 0);
                c' = c\<lparr>orphanSessions := orphans\<rparr>
            in if length orphans = 0 then (StatusOK, c') else (StatusWarning, c'))"

definition isCrewSession :: "string \<Rightarrow> bool" where
  "isCrewSession session =
     (let parts = Split session CHR ''-'' in
      if length parts \<ge> 4 \<and> parts ! 0 = ''gt'' \<and> parts ! 2 = ''crew'' then True else False)"

text \<open>What \<^verbatim>\<open>Fix\<close> does to the outside, in order: the pre-death event it logs and the
  kill it asks of tmux, with the error tmux answered.\<close>

datatype session_action = LogSessionDeath string | KillSessionCall string "error option"

record 'w session_fix_state =
  s_world :: 'w
  s_lastErr :: "error option"
  s_actions :: "session_action list"

fun fix_sessions_loop ::
  "'w SessionEnv \<Rightarrow> string list \<Rightarrow> 'w session_fix_state \<Rightarrow> 'w session_fix_state" where
  "fix_sessions_loop env [] st = st"
| "fix_sessions_loop env (sess # sessions) st =
     (if isCrewSession sess then fix_sessions_loop env sessions st
      else
        (case KillSession env (s_world st) sess of
           (err, w') \<Rightarrow>
             fix_sessions_loop env sessions
               \<lparr>s_world = w',
                s_lastErr = (if err \<noteq> None then err else s_lastErr st),
                s_actions = s_actions st @ [LogSessionDeath sess, KillSessionCall sess err]\<rparr>))"

text \<open>\<^verbatim>\<open>OrphanSessionCheck.Fix\<close>: the returned error and the state the loop ended in.\<close>

definition Fix_sessions ::
  "'w SessionEnv \<Rightarrow> OrphanSessionCheck \<Rightarrow> CheckContext \<Rightarrow> 'w \<Rightarrow> error option \<times> 'w session_fix_state" where
  "Fix_sessions env c ctx w =
     (let st0 = \<lparr>s_world = w, s_lastErr = None, s_actions = []\<rparr> in
      if length (orphanSessions c) = 0 then (None, st0)
      else
        let st = fix_sessions_loop env (orphanSessions c) st0
        in (s_lastErr st, st))"

definition killed_sessions :: "session_action list \<Rightarrow> string list" where
  "killed_sessions acts = concat (map (\<lambda>a. case a of KillSessionCall s e \<Rightarrow> [s] | _ \<Rightarrow> []) acts)"

definition kill_failed :: "session_action \<Rightarrow> bool" where
  "kill_failed a = (case a of KillSessionCall s e \<Rightarrow> e \<noteq> None | _ \<Rightarrow> False)"

definition kill_succeeded :: "session_action \<Rightarrow> bool" where
  "kill_succeeded a = (case a of KillSessionCall s e \<Rightarrow> e = None | _ \<Rightarrow> False)"

text \<open>The crew-member grammar, as the comment on \<^verbatim>\<open>isCrewSession\<close> writes it:
  \<^verbatim>\<open>gt-<rig>-crew-<name>\<close>.\<close>

definition crew_session_name :: "string \<Rightarrow> string \<Rightarrow> string" where
  "crew_session_name rig name = ''gt-'' @ rig @ ''-crew-'' @ name"

section \<open>Package doctor: the orphan-process check\<close>

record processInfo =
  pid :: int
  ppid :: int
  cmd :: string

text \<open>The \<^verbatim>\<open>ProcessLister\<close> interface, every method returning Go's pair of value and
  error, and \<^verbatim>\<open>syscallKill\<close>, the package variable that wraps \<^verbatim>\<open>syscall.Kill\<close>.\<close>

record 'w ProcessLister =
  ListTmuxServerPIDs :: "'w \<Rightarrow> int list \<times> error option"
  ListPanePIDs :: "'w \<Rightarrow> int list \<times> error option"
  ListRuntimeProcesses :: "'w \<Rightarrow> processInfo list \<times> error option"
  GetParentPID :: "'w \<Rightarrow> int \<Rightarrow> int \<times> error option"
  syscallKill :: "'w \<Rightarrow> int \<Rightarrow> int \<Rightarrow> error option \<times> 'w"

record OrphanProcessCheck =
  orphanProcesses :: "processInfo list"

text \<open>A \<^verbatim>\<open>map[int]bool\<close> is a function that is \<open>False\<close> off its keys.\<close>

fun mark_all :: "int list \<Rightarrow> (int \<Rightarrow> bool) \<Rightarrow> (int \<Rightarrow> bool)" where
  "mark_all [] pids = pids"
| "mark_all (p # ps) pids = mark_all ps (pids(p := True))"

definition getTmuxSessionPIDs :: "'w ProcessLister \<Rightarrow> 'w \<Rightarrow> (int \<Rightarrow> bool) \<times> error option" where
  "getTmuxSessionPIDs L w =
     (let pids = (\<lambda>p. False) in
      case ListTmuxServerPIDs L w of
        (serverPIDs, err) \<Rightarrow>
          if err \<noteq> None then (pids, None)
          else
            let pids = mark_all serverPIDs pids in
            (case ListPanePIDs L w of
               (panePIDs, err) \<Rightarrow>
                 if err \<noteq> None then (pids, None)
                 else (mark_all panePIDs pids, None)))"

definition maxAncestryDepth :: nat where
  "maxAncestryDepth = 8"

function ancestry_loop ::
  "'w ProcessLister \<Rightarrow> 'w \<Rightarrow> (int \<Rightarrow> bool) \<Rightarrow> nat \<Rightarrow> int \<Rightarrow> (int \<Rightarrow> bool) \<Rightarrow> bool" where
  "ancestry_loop L w tmuxPIDs depth currentPPID visited =
     (if depth < maxAncestryDepth \<and> currentPPID > 1 \<and> \<not> visited currentPPID then
        let visited' = visited(currentPPID := True) in
        if tmuxPIDs currentPPID then False
        else
          (case GetParentPID L w currentPPID of
             (nextPPID, err) \<Rightarrow>
               if err \<noteq> None then True
               else ancestry_loop L w tmuxPIDs (depth + 1) nextPPID visited')
      else True)"
  by pat_completeness auto
termination
  by (relation "measure (\<lambda>(L, w, tmuxPIDs, depth, currentPPID, visited). maxAncestryDepth - depth)")
     auto

definition isOrphanProcess :: "'w ProcessLister \<Rightarrow> 'w \<Rightarrow> processInfo \<Rightarrow> (int \<Rightarrow> bool) \<Rightarrow> bool" where
  "isOrphanProcess L w proc tmuxPIDs =
     (case GetParentPID L w (pid proc) of
        (p, err) \<Rightarrow>
          let currentPPID = (if err \<noteq> None then ppid proc else p)
          in ancestry_loop L w tmuxPIDs 0 currentPPID (\<lambda>p. False))"

text \<open>The same walk, writing down what it asks: each call of \<^verbatim>\<open>GetParentPID\<close> with
  its argument, and each ancestor it tests against the registry.\<close>

datatype walk_event = ParentLookup int | RegistryTest int

function ancestry_loop_traced ::
  "'w ProcessLister \<Rightarrow> 'w \<Rightarrow> (int \<Rightarrow> bool) \<Rightarrow> nat \<Rightarrow> int \<Rightarrow> (int \<Rightarrow> bool) \<Rightarrow> walk_event list
     \<Rightarrow> bool \<times> walk_event list" where
  "ancestry_loop_traced L w tmuxPIDs depth currentPPID visited tr =
     (if depth < maxAncestryDepth \<and> currentPPID > 1 \<and> \<not> visited currentPPID then
        let visited' = visited(currentPPID := True) in
        if tmuxPIDs currentPPID then (False, tr @ [RegistryTest currentPPID])
        else
          (case GetParentPID L w currentPPID of
             (nextPPID, err) \<Rightarrow>
               if err \<noteq> None
               then (True, tr @ [RegistryTest currentPPID, ParentLookup currentPPID])
               else ancestry_loop_traced L w tmuxPIDs (depth + 1) nextPPID visited'
                      (tr @ [RegistryTest currentPPID, ParentLookup currentPPID]))
      else (True, tr))"
  by pat_completeness auto
termination
  by (relation "measure (\<lambda>(L, w, tmuxPIDs, depth, currentPPID, visited, tr). maxAncestryDepth - depth)")
     auto

definition isOrphanProcess_traced ::
  "'w ProcessLister \<Rightarrow> 'w \<Rightarrow> processInfo \<Rightarrow> (int \<Rightarrow> bool) \<Rightarrow> bool \<times> walk_event list" where
  "isOrphanProcess_traced L w proc tmuxPIDs =
     (case GetParentPID L w (pid proc) of
        (p, err) \<Rightarrow>
          let currentPPID = (if err \<noteq> None then ppid proc else p)
          in ancestry_loop_traced L w tmuxPIDs 0 currentPPID (\<lambda>p. False) [ParentLookup (pid proc)])"

definition is_lookup :: "walk_event \<Rightarrow> bool" where
  "is_lookup e = (case e of ParentLookup p \<Rightarrow> True | RegistryTest p \<Rightarrow> False)"

definition is_test :: "walk_event \<Rightarrow> bool" where
  "is_test e = (case e of ParentLookup p \<Rightarrow> False | RegistryTest p \<Rightarrow> True)"

text \<open>The ancestors a trace shows as tested against the registry, in order.\<close>

definition tested :: "walk_event list \<Rightarrow> int list" where
  "tested tr = concat (map (\<lambda>e. case e of RegistryTest p \<Rightarrow> [p] | ParentLookup p \<Rightarrow> []) tr)"

text \<open>The loop of \<^verbatim>\<open>OrphanProcessCheck.Run\<close> over the listed runtime processes.\<close>

fun classify_processes ::
  "'w ProcessLister \<Rightarrow> 'w \<Rightarrow> (int \<Rightarrow> bool) \<Rightarrow> processInfo list \<Rightarrow> processInfo list \<Rightarrow> int
     \<Rightarrow> processInfo list \<times> int" where
  "classify_processes L w tmuxPIDs [] outsideTmux insideTmux = (outsideTmux, insideTmux)"
| "classify_processes L w tmuxPIDs (proc # procs) outsideTmux insideTmux =
     (if isOrphanProcess L w proc tmuxPIDs
      then classify_processes L w tmuxPIDs procs (outsideTmux @ [proc]) insideTmux
      else classify_processes L w tmuxPIDs procs outsideTmux (insideTmux + 1))"

definition Run_processes ::
  "'w ProcessLister \<Rightarrow> OrphanProcessCheck \<Rightarrow> CheckContext \<Rightarrow> 'w \<Rightarrow> CheckStatus \<times> OrphanProcessCheck" where
  "Run_processes L c ctx w =
     (case getTmuxSessionPIDs L w of
        (tmuxPIDs, err) \<Rightarrow>
          if err \<noteq> None then (StatusWarning, c)
          else
            (case ListRuntimeProcesses L w of
               (runtimeProcs, err) \<Rightarrow>
                 if err \<noteq> None then (StatusWarning, c)
                 else if length runtimeProcs = 0 then (StatusOK, c)
                 else
                   let outsideTmux = fst (classify_processes L w tmuxPIDs runtimeProcs [] 0);
                       c' = c\<lparr>orphanProcesses := outsideTmux\<rparr>
                   in if length outsideTmux = 0 then (StatusOK, c') else (StatusWarning, c')))"

text \<open>The state of the loop of \<^verbatim>\<open>Fix\<close>: the machine, the three variables of the
  source, and what the loop did to the outside: every call of \<^verbatim>\<open>syscallKill\<close> as
  (PID, signal, error answered), and every line printed.\<close>

datatype printed_line = WouldKill int string | WouldSkip int

record 'w process_fix_state =
  p_world :: 'w
  killed :: int
  skipped :: int
  lastErr :: "error option"
  signals :: "(int \<times> int \<times> error option) list"
  printed :: "printed_line list"

definition fix_step ::
  "'w ProcessLister \<Rightarrow> bool \<Rightarrow> (int \<Rightarrow> bool) \<Rightarrow> 'w process_fix_state \<Rightarrow> processInfo
     \<Rightarrow> 'w process_fix_state" where
  "fix_step L dryRun panePIDSet st proc =
     (if \<not> isOrphanProcess L (p_world st) proc panePIDSet then st\<lparr>skipped := skipped st + 1\<rparr>
      else
        (case syscallKill L (p_world st) (pid proc) 0 of
           (err, w1) \<Rightarrow>
             let st1 = st\<lparr>p_world := w1, signals := signals st @ [(pid proc, 0, err)]\<rparr> in
             if err \<noteq> None then st1
             else if dryRun then
               st1\<lparr>printed := printed st1 @ [WouldKill (pid proc) (cmd proc)],
                   killed := killed st1 + 1\<rparr>
             else
               (case syscallKill L w1 (pid proc) SIGTERM of
                  (err, w2) \<Rightarrow>
                    let st2 = st1\<lparr>p_world := w2,
                                  signals := signals st1 @ [(pid proc, SIGTERM, err)]\<rparr> in
                    if err \<noteq> None
                    then st2\<lparr>lastErr := Some (FailedToKillPID (pid proc) (the err))\<rparr>
                    else st2\<lparr>killed := killed st2 + 1\<rparr>)))"

fun fix_loop ::
  "'w ProcessLister \<Rightarrow> bool \<Rightarrow> (int \<Rightarrow> bool) \<Rightarrow> processInfo list \<Rightarrow> 'w process_fix_state
     \<Rightarrow> 'w process_fix_state" where
  "fix_loop L dryRun panePIDSet [] st = st"
| "fix_loop L dryRun panePIDSet (proc # procs) st =
     fix_loop L dryRun panePIDSet procs (fix_step L dryRun panePIDSet st proc)"

definition fix_init :: "'w \<Rightarrow> 'w process_fix_state" where
  "fix_init w = \<lparr>p_world = w, killed = 0, skipped = 0, lastErr = None, signals = [], printed = []\<rparr>"

text \<open>The registry \<^verbatim>\<open>Fix\<close> samples on entry: the pane PIDs, then the server PIDs
  (whose listing error is dropped).\<close>

definition fix_registry :: "'w ProcessLister \<Rightarrow> 'w \<Rightarrow> (int \<Rightarrow> bool)" where
  "fix_registry L w =
     mark_all (fst (ListTmuxServerPIDs L w)) (mark_all (fst (ListPanePIDs L w)) (\<lambda>p. False))"

definition Fix_processes ::
  "'w ProcessLister \<Rightarrow> OrphanProcessCheck \<Rightarrow> CheckContext \<Rightarrow> 'w
     \<Rightarrow> error option \<times> 'w process_fix_state" where
  "Fix_processes L c ctx w =
     (if length (orphanProcesses c) = 0 then (None, fix_init w)
      else
        (case ListPanePIDs L w of
           (currentPanePIDs, err) \<Rightarrow>
             if err \<noteq> None then (Some (FailedToListPanePIDs (the err)), fix_init w)
             else
               let panePIDSet = mark_all currentPanePIDs (\<lambda>p. False);
                   serverPIDs = fst (ListTmuxServerPIDs L w);
                   panePIDSet = mark_all serverPIDs panePIDSet;
                   st = fix_loop L (DryRun ctx) panePIDSet (orphanProcesses c) (fix_init w)
               in if DryRun ctx then
                    (None, if skipped st > 0 then st\<lparr>printed := printed st @ [WouldSkip (skipped st)]\<rparr>
                           else st)
                  else if lastErr st \<noteq> None \<and> killed st = 0 then (lastErr st, st)
                  else (None, st)))"


text \<open>Reading the signal log of \<^verbatim>\<open>Fix\<close>: a \<^verbatim>\<open>SIGTERM\<close> that was accepted, and one
  that was refused.\<close>

definition term_succeeded :: "int \<times> int \<times> error option \<Rightarrow> bool" where
  "term_succeeded x = (case x of (p, sig, err) \<Rightarrow> sig = SIGTERM \<and> err = None)"

definition term_failed :: "int \<times> int \<times> error option \<Rightarrow> bool" where
  "term_failed x = (case x of (p, sig, err) \<Rightarrow> sig = SIGTERM \<and> err \<noteq> None)"

text \<open>Two invariants of the remediation loops: the counter \<open>killed\<close> is the number
  of accepted \<^verbatim>\<open>SIGTERM\<close>s and \<open>lastErr\<close> is set exactly when one was refused; the
  session loop's \<open>lastErr\<close> is set exactly when tmux refused a kill.\<close>

definition fix_inv :: "'w process_fix_state \<Rightarrow> bool" where
  "fix_inv st =
     (killed st = int (length (filter term_succeeded (signals st)))
      \<and> (lastErr st \<noteq> None) = (\<exists>x\<in>set (signals st). term_failed x))"

definition session_inv :: "'w session_fix_state \<Rightarrow> bool" where
  "session_inv st = ((s_lastErr st \<noteq> None) = (\<exists>a\<in>set (s_actions st). kill_failed a))"

text \<open>Reading what \<^verbatim>\<open>Fix\<close> printed and sent: the PIDs of the dry-run lines
  "Would kill PID", and the PIDs that were sent \<^verbatim>\<open>SIGTERM\<close>. A dry-run state and a
  real-run state have the same verdicts when they stand on the same machine, skipped
  the same number of candidates, and the first announced exactly the PIDs the second
  signalled. A dry-run state is sound when it sent nothing but probes and counts
  one kill per announcement.\<close>

definition would_kill_pids :: "printed_line list \<Rightarrow> int list" where
  "would_kill_pids ls = concat (map (\<lambda>l. case l of WouldKill p c \<Rightarrow> [p] | WouldSkip n \<Rightarrow> []) ls)"

definition sigterm_pids :: "(int \<times> int \<times> error option) list \<Rightarrow> int list" where
  "sigterm_pids sigs = map fst (filter (\<lambda>x. fst (snd x) = SIGTERM) sigs)"






text \<open>Reading the logs for the errors of the refused kills, in the order in which
  they occurred: what tmux answered to a refused session kill, and the error
  "failed to kill PID" that the process loop makes of a refused \<^verbatim>\<open>SIGTERM\<close>.
  \<open>last_error\<close> is the last error of such a list, \<^verbatim>\<open>nil\<close> for the empty one. Two
  further invariants of the loops: \<open>lastErr\<close> is the last error of the log.\<close>

definition failed_kill_errors :: "session_action list \<Rightarrow> error list" where
  "failed_kill_errors acts =
     concat (map (\<lambda>a. case a of KillSessionCall s (Some e) \<Rightarrow> [e] | _ \<Rightarrow> []) acts)"

definition failed_term_errors :: "(int \<times> int \<times> error option) list \<Rightarrow> error list" where
  "failed_term_errors sigs =
     concat (map (\<lambda>x. case x of (p, sig, Some e) \<Rightarrow> if sig = SIGTERM then [FailedToKillPID p e] else []
                               | (p, sig, None) \<Rightarrow> []) sigs)"

definition last_error :: "error list \<Rightarrow> error option" where
  "last_error es = (if es = [] then None else Some (last es))"

definition session_last_inv :: "'w session_fix_state \<Rightarrow> bool" where
  "session_last_inv st = (s_lastErr st = last_error (failed_kill_errors (s_actions st)))"

definition fix_last_inv :: "'w process_fix_state \<Rightarrow> bool" where
  "fix_last_inv st = (lastErr st = last_error (failed_term_errors (signals st)))"

section \<open>Concrete process tables and machines\<close>

text \<open>The definitions of this section are particular inputs, on which the results
  below are evaluated.\<close>



text \<open>A kernel in which PID 1 runs and belongs to somebody else.\<close>

definition foreign_init :: kernel where
  "foreign_init = \<lparr>running = (\<lambda>p. p = 1), may_signal = (\<lambda>p. False)\<rparr>"

text \<open>A machine whose bd daemon is restarted twice over by a supervisor: the first
  sample of /proc shows one daemon (PID 100), every sample after a pause shows two
  (PIDs 200 and 201). Signals are accepted and change nothing.\<close>

definition respawn_fs :: "nat \<Rightarrow> procfs" where
  "respawn_fs phase =
     \<lparr>ReadDir_proc = Some (if phase = 0 then [(''100'', True), (''cpuinfo'', False)]
                           else [(''200'', True), (''201'', True), (''cpuinfo'', False)]),
      children_file = (\<lambda>p. None),
      cmdline_file = (\<lambda>p. if p = 100 \<or> p = 200 \<or> p = 201
                          then Some (''bd'' @ [CHR 0x00] @ ''daemon'' @ [CHR 0x00]) else None)\<rparr>"

definition respawn_OS :: "nat OS" where
  "respawn_OS = \<lparr>procfs_of = respawn_fs, Kill = (\<lambda>w p sig. (None, w)),
                 Sleep = (\<lambda>w ms. w + 1), LookPath = (\<lambda>w name. True)\<rparr>"

text \<open>A town whose only rig is \<open>gongshow\<close>, with sessions of a rig \<open>ghost\<close> that
  no longer exists; and a town whose rig is called \<open>my-rig\<close>. tmux kills whatever it
  is asked to.\<close>

definition ghost_env :: "unit SessionEnv" where
  "ghost_env = \<lparr>ListSessions = (\<lambda>w. ([''gt-ghost-crew-joe'', ''gt-ghost-alpha'', ''gt-gongshow-witness'',
                                      ''scratchpad''], None)),
     KillSession = (\<lambda>w s. (None, w)),
     getValidRigs = (\<lambda>w root. [''gongshow'']),
     MayorSessionName = ''hq-mayor'', DeaconSessionName = ''hq-deacon''\<rparr>"

definition hyphen_env :: "unit SessionEnv" where
  "hyphen_env = \<lparr>ListSessions = (\<lambda>w. ([''gt-my-rig-crew-joe''], None)),
     KillSession = (\<lambda>w s. (None, w)),
     getValidRigs = (\<lambda>w root. [''my-rig'']),
     MayorSessionName = ''hq-mayor'', DeaconSessionName = ''hq-deacon''\<rparr>"

definition town_ctx :: CheckContext where
  "town_ctx = \<lparr>TownRoot = ''/town'', DryRun = False\<rparr>"

text \<open>A runtime process (PID 121) below twenty ancestors, 120 down to 101, the last
  one a child of PID 1; no tmux anywhere.\<close>

definition chain20 :: "unit ProcessLister" where
  "chain20 = \<lparr>ListTmuxServerPIDs = (\<lambda>w. ([], None)), ListPanePIDs = (\<lambda>w. ([], None)),
     ListRuntimeProcesses = (\<lambda>w. ([\<lparr>pid = 121, ppid = 120, cmd = ''claude''\<rparr>], None)),
     GetParentPID = (\<lambda>w p. if 101 \<le> p \<and> p \<le> 121 then (if p = 101 then 1 else p - 1, None)
                             else (0, Some (Failure ''no such process''))),
     syscallKill = (\<lambda>w p sig. (None, w))\<rparr>"

definition deep_candidate :: processInfo where
  "deep_candidate = \<lparr>pid = 121, ppid = 120, cmd = ''claude''\<rparr>"

text \<open>Three runtime processes, all children of PID 1 when \<^verbatim>\<open>Run\<close> looks (machine
  \<open>0\<close>). Later (machine \<open>1\<close>) process 2002 is the child of the pane shell 1000.
  Process 2003 answers the probe and is gone when \<^verbatim>\<open>SIGTERM\<close> is sent.\<close>

definition race_lister :: "nat ProcessLister" where
  "race_lister = \<lparr>ListTmuxServerPIDs = (\<lambda>w. ([900], None)), ListPanePIDs = (\<lambda>w. ([1000], None)),
     ListRuntimeProcesses = (\<lambda>w. ([\<lparr>pid = 2001, ppid = 1, cmd = ''claude''\<rparr>,
                                    \<lparr>pid = 2002, ppid = 1, cmd = ''claude''\<rparr>,
                                    \<lparr>pid = 2003, ppid = 1, cmd = ''codex''\<rparr>], None)),
     GetParentPID = (\<lambda>w p. if p = 2002 then (if w = 0 then 1 else 1000, None)
                            else if p = 2001 \<or> p = 2003 then (1, None)
                            else if p = 1000 then (900, None)
                            else if p = 900 then (1, None)
                            else (0, Some (Failure ''no such process''))),
     syscallKill = (\<lambda>w p sig. (if p = 2003 \<and> sig \<noteq> 0 then Some (Errno ESRCH) else None, w))\<rparr>"

text \<open>Two sessions of a rig that no longer exists; tmux fails to kill the second.\<close>

definition partial_env :: "unit SessionEnv" where
  "partial_env = \<lparr>ListSessions = (\<lambda>w. ([''gt-ghost-alpha'', ''gt-ghost-beta''], None)),
     KillSession = (\<lambda>w s. (if s = ''gt-ghost-beta'' then Some (Failure ''session not found'') else None, w)),
     getValidRigs = (\<lambda>w root. [''gongshow'']),
     MayorSessionName = ''hq-mayor'', DeaconSessionName = ''hq-deacon''\<rparr>"

definition dry_ctx :: CheckContext where
  "dry_ctx = \<lparr>TownRoot = ''/town'', DryRun = True\<rparr>"

text \<open>The caches that \<^verbatim>\<open>Run\<close> leaves on these machines.\<close>

definition race_cache :: OrphanProcessCheck where
  "race_cache = snd (Run_processes race_lister \<lparr>orphanProcesses = []\<rparr> town_ctx 0)"

definition partial_cache :: OrphanSessionCheck where
  "partial_cache = snd (Run_sessions partial_env \<lparr>orphanSessions = []\<rparr> town_ctx ())"

text \<open>A machine on which one \<^verbatim>\<open>bd activity\<close> process (PID 300) is replaced by three
  (PIDs 400 to 402) during the first pause. Signals are accepted and change nothing.\<close>

definition respawn_activity_fs :: "nat \<Rightarrow> procfs" where
  "respawn_activity_fs phase =
     \<lparr>ReadDir_proc = Some (if phase = 0 then [(''300'', True), (''self'', True)]
                           else [(''400'', True), (''401'', True), (''402'', True), (''self'', True)]),
      children_file = (\<lambda>p. None),
      cmdline_file = (\<lambda>p. if p = 300 \<or> p = 400 \<or> p = 401 \<or> p = 402
                          then Some (''bd'' @ [CHR 0x00] @ ''activity'' @ [CHR 0x00] @ ''--follow'' @ [CHR 0x00])
                          else None)\<rparr>"

definition respawn_activity_OS :: "nat OS" where
  "respawn_activity_OS = \<lparr>procfs_of = respawn_activity_fs, Kill = (\<lambda>w p sig. (None, w)),
                 Sleep = (\<lambda>w ms. w + 1), LookPath = (\<lambda>w name. True)\<rparr>"

text \<open>Three sessions of a rig that no longer exists; tmux fails to kill the first
  two, each with an error of its own, and kills the third.\<close>

definition two_failures_env :: "unit SessionEnv" where
  "two_failures_env = \<lparr>ListSessions = (\<lambda>w. ([''gt-ghost-alpha'', ''gt-ghost-beta'', ''gt-ghost-gamma''], None)),
     KillSession = (\<lambda>w s. (if s = ''gt-ghost-alpha'' then Some (Failure ''first'')
                           else if s = ''gt-ghost-beta'' then Some (Failure ''second'')
                           else None, w)),
     getValidRigs = (\<lambda>w root. [''gongshow'']),
     MayorSessionName = ''hq-mayor'', DeaconSessionName = ''hq-deacon''\<rparr>"

definition two_failures_cache :: OrphanSessionCheck where
  "two_failures_cache = snd (Run_sessions two_failures_env \<lparr>orphanSessions = []\<rparr> town_ctx ())"

text \<open>The machine of the race, with every \<^verbatim>\<open>SIGTERM\<close> refused.\<close>

definition refusing_lister :: "nat ProcessLister" where
  "refusing_lister =
     race_lister\<lparr>syscallKill := (\<lambda>w p sig. (if sig \<noteq> 0 then Some (Errno EPERM) else None, w))\<rparr>"





definition refusing_cache :: OrphanProcessCheck where
  "refusing_cache = snd (Run_processes refusing_lister \<lparr>orphanProcesses = []\<rparr> town_ctx 0)"

section \<open>Count and find agree\<close>

lemma count_find_entries:
  "int (length (find_entries fs pattern entries pids))
     = count_entries fs pattern entries (int (length pids))"
proof (induction entries arbitrary: pids)
  case Nil
  show ?case by simp
next
  case (Cons e entries)
  obtain name isDir where e: "e = (name, isDir)" by (cases e)
  show ?case
    unfolding e by (simp split: option.splits add: Cons.IH add.commute)
qed

text \<open>C10: on one sample of the process table, \<open>CountByPattern\<close> returns the length
  of the PID list that \<open>FindByPattern\<close> returns, for every pattern.\<close>

theorem CountByPattern_eq_length_FindByPattern:
  "CountByPattern fs pattern = int (length (FindByPattern fs pattern))"
  using count_find_entries [of fs pattern _ "[]"]
  by (simp add: CountByPattern_def FindByPattern_def split: option.splits)

section \<open>The descendant enumeration\<close>

































section \<open>The existence probe\<close>

text \<open>PID 1 runs, the caller may not signal it, the probe is refused with \<open>EPERM\<close>,
  and \<open>Exists\<close> answers false.\<close>

theorem Exists_permission_counterexample:
  "running foreign_init 1 \<and> fst (Kill kernel_OS foreign_init 1 0) = Some EPERM
   \<and> \<not> Exists kernel_OS foreign_init 1"
  by (simp add: Exists_def kernel_OS_def kill2_def foreign_init_def)

text \<open>C4, as the code has it: \<open>Exists\<close> is true exactly when the signal-0 probe is
  accepted. Under the kill(2) contract that is when the process exists and the
  caller may signal it; the two refusals, \<open>ESRCH\<close> for an absent process and
  \<open>EPERM\<close> for a process of somebody else, both give false.\<close>

theorem Exists_iff_probe_accepted:
  "Exists os w p = (fst (Kill os w p 0) = None)
   \<and> Exists kernel_OS k p = (running k p \<and> may_signal k p)
   \<and> fst (Kill kernel_OS k p 0)
       = (if running k p then (if may_signal k p then None else Some EPERM) else Some ESRCH)"
  by (auto simp: Exists_def kernel_OS_def kill2_def)

section \<open>The stop passes\<close>

lemma respawn_counts: "CountBdDaemons respawn_OS 0 = 1" "CountBdDaemons respawn_OS 1 = 2"
  by code_simp+

lemma respawn_stop: "stopBdDaemons respawn_OS True 0 = ((0, 2), 1)"
  by code_simp

lemma respawn_activity_stop:
  "CountBdActivityProcesses respawn_activity_OS 0 = 1"
  "stopBdActivityProcesses respawn_activity_OS False 0 = ((0, 3), 2)"
  "CountBdActivityProcesses respawn_activity_OS 2 = 3"
  by code_simp+

lemma CountByPattern_nonneg: "0 \<le> CountByPattern fs pattern"
  using count_find_entries [of fs pattern _ "[]"]
  by (simp add: CountByPattern_def split: option.splits)
     (metis of_nat_0_le_iff)

text \<open>What the caller makes of the two counts: \<open>StopAllBdProcesses\<close> returns an
  error exactly when a pass reports processes remaining. The killed count, clamped
  or not, plays no part in it, and a pass that leaves as many processes as it found
  is reported in the same way as one that leaves more.\<close>

lemma StopAllBdProcesses_error_iff_remaining:
  assumes "LookPath os w ''bd''" and "\<not> dryRun"
  shows "(snd (snd (fst (StopAllBdProcesses os dryRun force w))) \<noteq> None)
         = (0 < snd (fst (stopBdDaemons os force w))
            \<or> 0 < snd (fst (stopBdActivityProcesses os force (snd (stopBdDaemons os force w)))))"
  using assms by (simp add: StopAllBdProcesses_def Let_def split: prod.splits)

text \<open>C9: a stop pass returns two counts, (killed, remaining), and has no error
  result. When it counts more matching processes after its kill sequence than
  before, it returns as in every other case, with 0 as the killed count and the
  count it took last as the remaining count (both passes, forced or graceful). In
  general the killed count is the difference of the two counts where that is
  positive and 0 otherwise, so it is never negative.\<close>

theorem stop_pass_clamps_race_underflow:
  "(CountBdDaemons os w < snd (fst (stopBdDaemons os force w))
      \<longrightarrow> fst (stopBdDaemons os force w)
            = (0, CountBdDaemons os (snd (stopBdDaemons os force w))))
   \<and> (CountBdActivityProcesses os w < snd (fst (stopBdActivityProcesses os force w))
      \<longrightarrow> fst (stopBdActivityProcesses os force w)
            = (0, CountBdActivityProcesses os (snd (stopBdActivityProcesses os force w))))
   \<and> fst (fst (stopBdDaemons os force w))
       = max 0 (CountBdDaemons os w - snd (fst (stopBdDaemons os force w)))
   \<and> fst (fst (stopBdActivityProcesses os force w))
       = max 0 (CountBdActivityProcesses os w - snd (fst (stopBdActivityProcesses os force w)))
   \<and> 0 \<le> fst (fst (stopBdDaemons os force w))
   \<and> 0 \<le> fst (fst (stopBdActivityProcesses os force w))"
proof -
  have a: "CountBdDaemons os w < snd (fst (stopBdDaemons os force w))
      \<longrightarrow> fst (stopBdDaemons os force w)
            = (0, CountBdDaemons os (snd (stopBdDaemons os force w)))"
    by (simp add: stopBdDaemons_def Let_def)
  have b: "CountBdActivityProcesses os w < snd (fst (stopBdActivityProcesses os force w))
      \<longrightarrow> fst (stopBdActivityProcesses os force w)
            = (0, CountBdActivityProcesses os (snd (stopBdActivityProcesses os force w)))"
    by (simp add: stopBdActivityProcesses_def Let_def)
  have c: "fst (fst (stopBdDaemons os force w))
       = max 0 (CountBdDaemons os w - snd (fst (stopBdDaemons os force w)))"
    by (simp add: stopBdDaemons_def Let_def max_def)
  have d: "fst (fst (stopBdActivityProcesses os force w))
       = max 0 (CountBdActivityProcesses os w - snd (fst (stopBdActivityProcesses os force w)))"
    by (simp add: stopBdActivityProcesses_def Let_def max_def)
  have e: "0 \<le> fst (fst (stopBdDaemons os force w))"
    by (simp add: stopBdDaemons_def Let_def)
  have f: "0 \<le> fst (fst (stopBdActivityProcesses os force w))"
    by (simp add: stopBdActivityProcesses_def Let_def)
  from a b c d e f show ?thesis by blast
qed

text \<open>The machine whose daemon is restarted twice over (forced stop: one daemon
  before, two after), and the machine whose activity process is replaced by three
  (graceful stop: one before, three after), are such cases.\<close>

theorem stop_pass_clamps_race_underflow_witness:
  "CountBdDaemons respawn_OS 0 = 1
   \<and> snd (fst (stopBdDaemons respawn_OS True 0)) = 2
   \<and> fst (stopBdDaemons respawn_OS True 0) = (0, 2)
   \<and> CountBdActivityProcesses respawn_activity_OS 0 = 1
   \<and> snd (fst (stopBdActivityProcesses respawn_activity_OS False 0)) = 3
   \<and> fst (stopBdActivityProcesses respawn_activity_OS False 0) = (0, 3)"
proof -
  have h: "CountBdDaemons respawn_OS 0 < snd (fst (stopBdDaemons respawn_OS True 0))"
    by (simp add: respawn_counts respawn_stop)
  from stop_pass_clamps_race_underflow [of respawn_OS 0 True] h
  have d: "fst (stopBdDaemons respawn_OS True 0) = (0, 2)"
    by (simp add: respawn_stop respawn_counts)
  have h': "CountBdActivityProcesses respawn_activity_OS 0
             < snd (fst (stopBdActivityProcesses respawn_activity_OS False 0))"
    by (simp add: respawn_activity_stop)
  from stop_pass_clamps_race_underflow [of respawn_activity_OS 0 False] h'
  have a: "fst (stopBdActivityProcesses respawn_activity_OS False 0) = (0, 3)"
    by (simp add: respawn_activity_stop)
  from d a show ?thesis by (simp add: respawn_counts respawn_activity_stop)
qed

section \<open>Crew sessions and the session remediation\<close>

lemma Split_not_Nil: "Split s sep \<noteq> []"
  by (induction s) (auto split: list.splits)

lemma Split_piece: "sep \<notin> set a \<Longrightarrow> Split (a @ sep # b) sep = a # Split b sep"
  by (induction a) auto

lemma Split_crew_session_name:
  assumes "CHR ''-'' \<notin> set rig"
  shows "Split (crew_session_name rig name) CHR ''-''
         = ''gt'' # rig # ''crew'' # Split name CHR ''-''"
proof -
  have "Split (''gt'' @ CHR ''-'' # (rig @ CHR ''-'' # (''crew'' @ CHR ''-'' # name))) CHR ''-''
        = ''gt'' # Split (rig @ CHR ''-'' # (''crew'' @ CHR ''-'' # name)) CHR ''-''"
    by (rule Split_piece) simp
  also have "Split (rig @ CHR ''-'' # (''crew'' @ CHR ''-'' # name)) CHR ''-''
        = rig # Split (''crew'' @ CHR ''-'' # name) CHR ''-''"
    using assms by (rule Split_piece)
  also have "Split (''crew'' @ CHR ''-'' # name) CHR ''-'' = ''crew'' # Split name CHR ''-''"
    by (rule Split_piece) simp
  finally show ?thesis by (simp add: crew_session_name_def)
qed

lemma isCrewSession_crew_session_name:
  assumes "CHR ''-'' \<notin> set rig"
  shows "isCrewSession (crew_session_name rig name)"
proof -
  obtain p ps where "Split name CHR ''-'' = p # ps"
    using Split_not_Nil [of name "CHR ''-''"] by (cases "Split name CHR ''-''") auto
  then show ?thesis
    by (simp add: isCrewSession_def Split_crew_session_name [OF assms])
qed

lemma killed_sessions_append [simp]:
  "killed_sessions (xs @ ys) = killed_sessions xs @ killed_sessions ys"
  by (simp add: killed_sessions_def)

lemma fix_sessions_loop_kills:
  "killed_sessions (s_actions (fix_sessions_loop env sessions st))
     = killed_sessions (s_actions st) @ filter (\<lambda>s. \<not> isCrewSession s) sessions"
  by (induction sessions arbitrary: st)
     (auto simp: killed_sessions_def split: prod.splits)

lemma Fix_sessions_kills:
  "killed_sessions (s_actions (snd (Fix_sessions env c ctx w)))
     = filter (\<lambda>s. \<not> isCrewSession s) (orphanSessions c)"
  by (simp add: Fix_sessions_def Let_def fix_sessions_loop_kills)
     (simp add: killed_sessions_def)

text \<open>C1, as the code has it: for every rig name without a hyphen and every name
  (hyphens allowed), the session \<^verbatim>\<open>gt-<rig>-crew-<name>\<close> is never among the sessions
  \<open>Fix\<close> asks tmux to kill, whatever the cache holds, so also when \<open>Run\<close> cached
  it as an orphan of an unknown rig.\<close>

theorem crew_session_never_killed:
  assumes "CHR ''-'' \<notin> set rig"
  shows "crew_session_name rig name
           \<notin> set (killed_sessions (s_actions (snd (Fix_sessions env c ctx w))))"
  using isCrewSession_crew_session_name [OF assms] by (simp add: Fix_sessions_kills)

lemma ghost_run:
  "orphanSessions (snd (Run_sessions ghost_env \<lparr>orphanSessions = []\<rparr> town_ctx ()))
     = [crew_session_name ''ghost'' ''joe'', ''gt-ghost-alpha'']"
  by code_simp

text \<open>The rig \<open>ghost\<close> is unknown, \<open>Run\<close> caches its crew session as an orphan, and
  \<open>Fix\<close> leaves it alone.\<close>

theorem crew_session_never_killed_witness:
  "CHR ''-'' \<notin> set ''ghost''
   \<and> crew_session_name ''ghost'' ''joe''
       \<in> set (orphanSessions (snd (Run_sessions ghost_env \<lparr>orphanSessions = []\<rparr> town_ctx ())))
   \<and> crew_session_name ''ghost'' ''joe''
       \<notin> set (killed_sessions (s_actions (snd (Fix_sessions ghost_env
            (snd (Run_sessions ghost_env \<lparr>orphanSessions = []\<rparr> town_ctx ())) town_ctx ()))))"
proof -
  have h: "CHR ''-'' \<notin> set ''ghost''" by simp
  from crew_session_never_killed [OF h, of "''joe''" ghost_env
      "snd (Run_sessions ghost_env \<lparr>orphanSessions = []\<rparr> town_ctx ())" town_ctx "()"]
  show ?thesis using h by (simp add: ghost_run)
qed

text \<open>The session of crew member \<open>joe\<close> of the rig \<open>my-rig\<close> splits into
  \<open>gt, my, rig, crew, joe\<close>: \<open>Run\<close> looks for a rig \<open>my\<close> and caches the session
  as an orphan, \<open>isCrewSession\<close> finds \<open>rig\<close> in the place of \<open>crew\<close>, and \<open>Fix\<close>
  kills it.\<close>

theorem crew_hyphenated_rig_counterexample:
  "orphanSessions (snd (Run_sessions hyphen_env \<lparr>orphanSessions = []\<rparr> town_ctx ()))
     = [crew_session_name ''my-rig'' ''joe'']
   \<and> crew_session_name ''my-rig'' ''joe''
       \<in> set (killed_sessions (s_actions (snd (Fix_sessions hyphen_env
            (snd (Run_sessions hyphen_env \<lparr>orphanSessions = []\<rparr> town_ctx ())) town_ctx ()))))"
  by code_simp

section \<open>The ancestry walk\<close>

declare ancestry_loop.simps [simp del]
declare ancestry_loop_traced.simps [simp del]

lemma walk_event_simps [simp]:
  "is_test (RegistryTest p)" "\<not> is_test (ParentLookup p)"
  "is_lookup (ParentLookup p)" "\<not> is_lookup (RegistryTest p)"
  by (simp_all add: is_test_def is_lookup_def)

lemma ancestry_loop_stop:
  "\<not> (depth < maxAncestryDepth \<and> currentPPID > 1 \<and> \<not> visited currentPPID) \<Longrightarrow>
   ancestry_loop L w tmuxPIDs depth currentPPID visited = True"
  by (subst ancestry_loop.simps) auto

lemma ancestry_loop_hit:
  "depth < maxAncestryDepth \<and> currentPPID > 1 \<and> \<not> visited currentPPID \<Longrightarrow>
   tmuxPIDs currentPPID \<Longrightarrow>
   ancestry_loop L w tmuxPIDs depth currentPPID visited = False"
  by (subst ancestry_loop.simps) (simp add: Let_def)

lemma ancestry_loop_err:
  "depth < maxAncestryDepth \<and> currentPPID > 1 \<and> \<not> visited currentPPID \<Longrightarrow>
   \<not> tmuxPIDs currentPPID \<Longrightarrow> GetParentPID L w currentPPID = (nextPPID, Some e) \<Longrightarrow>
   ancestry_loop L w tmuxPIDs depth currentPPID visited = True"
  by (subst ancestry_loop.simps) (simp add: Let_def)

lemma ancestry_loop_step:
  "depth < maxAncestryDepth \<and> currentPPID > 1 \<and> \<not> visited currentPPID \<Longrightarrow>
   \<not> tmuxPIDs currentPPID \<Longrightarrow> GetParentPID L w currentPPID = (nextPPID, None) \<Longrightarrow>
   ancestry_loop L w tmuxPIDs depth currentPPID visited
     = ancestry_loop L w tmuxPIDs (depth + 1) nextPPID (visited(currentPPID := True))"
  by (subst ancestry_loop.simps) (simp add: Let_def)

lemma traced_stop:
  "\<not> (depth < maxAncestryDepth \<and> currentPPID > 1 \<and> \<not> visited currentPPID) \<Longrightarrow>
   ancestry_loop_traced L w tmuxPIDs depth currentPPID visited tr = (True, tr)"
  by (subst ancestry_loop_traced.simps) auto

lemma traced_hit:
  "depth < maxAncestryDepth \<and> currentPPID > 1 \<and> \<not> visited currentPPID \<Longrightarrow>
   tmuxPIDs currentPPID \<Longrightarrow>
   ancestry_loop_traced L w tmuxPIDs depth currentPPID visited tr
     = (False, tr @ [RegistryTest currentPPID])"
  by (subst ancestry_loop_traced.simps) (simp add: Let_def)

lemma traced_err:
  "depth < maxAncestryDepth \<and> currentPPID > 1 \<and> \<not> visited currentPPID \<Longrightarrow>
   \<not> tmuxPIDs currentPPID \<Longrightarrow> GetParentPID L w currentPPID = (nextPPID, Some e) \<Longrightarrow>
   ancestry_loop_traced L w tmuxPIDs depth currentPPID visited tr
     = (True, tr @ [RegistryTest currentPPID, ParentLookup currentPPID])"
  by (subst ancestry_loop_traced.simps) (simp add: Let_def)

lemma traced_step:
  "depth < maxAncestryDepth \<and> currentPPID > 1 \<and> \<not> visited currentPPID \<Longrightarrow>
   \<not> tmuxPIDs currentPPID \<Longrightarrow> GetParentPID L w currentPPID = (nextPPID, None) \<Longrightarrow>
   ancestry_loop_traced L w tmuxPIDs depth currentPPID visited tr
     = ancestry_loop_traced L w tmuxPIDs (depth + 1) nextPPID (visited(currentPPID := True))
         (tr @ [RegistryTest currentPPID, ParentLookup currentPPID])"
  by (subst ancestry_loop_traced.simps) (simp add: Let_def)

text \<open>What the traced walk adds to the trace it was given, in three facts: the
  verdict is that of the walk of the source, and the numbers of registry tests and
  of parent lookups it adds are bounded by the levels left.\<close>

lemma ancestry_loop_traced_spec:
  "fst (ancestry_loop_traced L w tmuxPIDs depth currentPPID visited tr)
     = ancestry_loop L w tmuxPIDs depth currentPPID visited
   \<and> length (filter is_test (snd (ancestry_loop_traced L w tmuxPIDs depth currentPPID visited tr)))
     \<le> length (filter is_test tr) + (maxAncestryDepth - depth)
   \<and> length (filter is_lookup (snd (ancestry_loop_traced L w tmuxPIDs depth currentPPID visited tr)))
     \<le> length (filter is_lookup tr) + (maxAncestryDepth - depth)"
proof (induction L w tmuxPIDs depth currentPPID visited tr rule: ancestry_loop_traced.induct)
  case (1 L w tmuxPIDs depth currentPPID visited tr)
  show ?case
  proof (cases "depth < maxAncestryDepth \<and> currentPPID > 1 \<and> \<not> visited currentPPID")
    case False
    then show ?thesis
      by (simp add: traced_stop ancestry_loop_stop)
  next
    case go: True
    then have lt: "depth < maxAncestryDepth" by simp
    show ?thesis
    proof (cases "tmuxPIDs currentPPID")
      case True
      have "ancestry_loop_traced L w tmuxPIDs depth currentPPID visited tr
            = (False, tr @ [RegistryTest currentPPID])"
        using go True by (rule traced_hit)
      moreover have "ancestry_loop L w tmuxPIDs depth currentPPID visited = False"
        using go True by (rule ancestry_loop_hit)
      ultimately show ?thesis
        using lt by (simp; arith)
    next
      case notmux: False
      obtain nextPPID err where gp: "GetParentPID L w currentPPID = (nextPPID, err)"
        by (cases "GetParentPID L w currentPPID")
      show ?thesis
      proof (cases err)
        case (Some e)
        have "ancestry_loop_traced L w tmuxPIDs depth currentPPID visited tr
            = (True, tr @ [RegistryTest currentPPID, ParentLookup currentPPID])"
          using go notmux gp Some by (simp add: traced_err)
        moreover have "ancestry_loop L w tmuxPIDs depth currentPPID visited = True"
          using go notmux gp Some ancestry_loop_err [of depth currentPPID visited tmuxPIDs L w nextPPID e]
          by simp
        ultimately show ?thesis
          using lt by (simp; arith)
      next
        case None
        have ne: "\<not> err \<noteq> None" using None by simp
        note ih = "1.IH" [OF go refl notmux gp [symmetric] ne]
        have gp': "GetParentPID L w currentPPID = (nextPPID, None)" using gp None by simp
        have t: "length (filter is_test (tr @ [RegistryTest currentPPID, ParentLookup currentPPID]))
                 = Suc (length (filter is_test tr))"
          and l: "length (filter is_lookup (tr @ [RegistryTest currentPPID, ParentLookup currentPPID]))
                 = Suc (length (filter is_lookup tr))"
          by simp_all
        have a: "Suc n + (maxAncestryDepth - (depth + 1)) = n + (maxAncestryDepth - depth)" for n
          using lt by arith
        have ts: "ancestry_loop_traced L w tmuxPIDs depth currentPPID visited tr
            = ancestry_loop_traced L w tmuxPIDs (depth + 1) nextPPID (visited(currentPPID := True))
                (tr @ [RegistryTest currentPPID, ParentLookup currentPPID])"
          using go notmux gp' by (rule traced_step)
        have ls: "ancestry_loop L w tmuxPIDs depth currentPPID visited
            = ancestry_loop L w tmuxPIDs (depth + 1) nextPPID (visited(currentPPID := True))"
          using go notmux gp' by (rule ancestry_loop_step)
        show ?thesis
          unfolding ts ls using ih unfolding t l a .
      qed
    qed
  qed
qed

lemma isOrphanProcess_traced_verdict:
  "fst (isOrphanProcess_traced L w proc tmuxPIDs) = isOrphanProcess L w proc tmuxPIDs"
proof -
  obtain p err where gp: "GetParentPID L w (pid proc) = (p, err)"
    by (cases "GetParentPID L w (pid proc)")
  show ?thesis
    by (simp add: isOrphanProcess_traced_def isOrphanProcess_def gp Let_def
        ancestry_loop_traced_spec)
qed

lemma isOrphanProcess_traced_tests:
  "length (filter is_test (snd (isOrphanProcess_traced L w proc tmuxPIDs))) \<le> 8"
proof -
  obtain p err where gp: "GetParentPID L w (pid proc) = (p, err)"
    by (cases "GetParentPID L w (pid proc)")
  show ?thesis
    using ancestry_loop_traced_spec [of L w tmuxPIDs 0 "if err \<noteq> None then ppid proc else p"
        "\<lambda>p. False" "[ParentLookup (pid proc)]"]
    by (simp add: isOrphanProcess_traced_def gp Let_def maxAncestryDepth_def)
qed

lemma isOrphanProcess_traced_lookups:
  "length (filter is_lookup (snd (isOrphanProcess_traced L w proc tmuxPIDs))) \<le> 9"
proof -
  obtain p err where gp: "GetParentPID L w (pid proc) = (p, err)"
    by (cases "GetParentPID L w (pid proc)")
  show ?thesis
    using ancestry_loop_traced_spec [of L w tmuxPIDs 0 "if err \<noteq> None then ppid proc else p"
        "\<lambda>p. False" "[ParentLookup (pid proc)]"]
    by (simp add: isOrphanProcess_traced_def gp Let_def maxAncestryDepth_def)
qed

lemma tested_simps [simp]:
  "tested [] = []"
  "tested (RegistryTest p # tr) = p # tested tr"
  "tested (ParentLookup p # tr) = tested tr"
  "tested (tr @ tr') = tested tr @ tested tr'"
  by (simp_all add: tested_def)

lemma ancestry_loop_traced_tested:
  "(\<forall>p. p \<in> set (tested tr) \<longrightarrow> visited p) \<Longrightarrow> distinct (tested tr) \<Longrightarrow>
   list_all (\<lambda>p. 1 < p) (tested tr) \<Longrightarrow>
   distinct (tested (snd (ancestry_loop_traced L w tmuxPIDs depth currentPPID visited tr)))
   \<and> list_all (\<lambda>p. 1 < p) (tested (snd (ancestry_loop_traced L w tmuxPIDs depth currentPPID visited tr)))"
proof (induction L w tmuxPIDs depth currentPPID visited tr rule: ancestry_loop_traced.induct)
  case (1 L w tmuxPIDs depth currentPPID visited tr)
  show ?case
  proof (cases "depth < maxAncestryDepth \<and> currentPPID > 1 \<and> \<not> visited currentPPID")
    case False
    then show ?thesis using "1.prems" by (simp add: traced_stop)
  next
    case go: True
    then have fresh: "currentPPID \<notin> set (tested tr)" and big: "1 < currentPPID"
      using "1.prems"(1) by auto
    show ?thesis
    proof (cases "tmuxPIDs currentPPID")
      case True
      have "ancestry_loop_traced L w tmuxPIDs depth currentPPID visited tr
            = (False, tr @ [RegistryTest currentPPID])"
        using go True by (rule traced_hit)
      then show ?thesis using "1.prems" fresh big by simp
    next
      case notmux: False
      obtain nextPPID err where gp: "GetParentPID L w currentPPID = (nextPPID, err)"
        by (cases "GetParentPID L w currentPPID")
      show ?thesis
      proof (cases err)
        case (Some e)
        have "ancestry_loop_traced L w tmuxPIDs depth currentPPID visited tr
            = (True, tr @ [RegistryTest currentPPID, ParentLookup currentPPID])"
          using go notmux gp Some by (simp add: traced_err)
        then show ?thesis using "1.prems" fresh big by simp
      next
        case None
        have ne: "\<not> err \<noteq> None" using None by simp
        let ?tr = "tr @ [RegistryTest currentPPID, ParentLookup currentPPID]"
        have a: "\<forall>p. p \<in> set (tested ?tr) \<longrightarrow> (visited(currentPPID := True)) p"
          using "1.prems"(1) by simp
        have b: "distinct (tested ?tr)" using "1.prems"(2) fresh by simp
        have c: "list_all (\<lambda>p. 1 < p) (tested ?tr)" using "1.prems"(3) big by simp
        note ih = "1.IH" [OF go refl notmux gp [symmetric] ne a b c]
        have gp': "GetParentPID L w currentPPID = (nextPPID, None)" using gp None by simp
        have ts: "ancestry_loop_traced L w tmuxPIDs depth currentPPID visited tr
            = ancestry_loop_traced L w tmuxPIDs (depth + 1) nextPPID (visited(currentPPID := True)) ?tr"
          using go notmux gp' by (rule traced_step)
        show ?thesis unfolding ts using ih .
      qed
    qed
  qed
qed

lemma isOrphanProcess_traced_tested:
  "distinct (tested (snd (isOrphanProcess_traced L w proc tmuxPIDs)))
   \<and> list_all (\<lambda>p. 1 < p) (tested (snd (isOrphanProcess_traced L w proc tmuxPIDs)))"
proof -
  obtain p err where gp: "GetParentPID L w (pid proc) = (p, err)"
    by (cases "GetParentPID L w (pid proc)")
  show ?thesis
    using ancestry_loop_traced_tested [of "[ParentLookup (pid proc)]" "\<lambda>p. False" L w tmuxPIDs 0
        "if err \<noteq> None then ppid proc else p"]
    by (simp add: isOrphanProcess_traced_def gp Let_def)
qed

lemma isOrphanProcess_rereads_parent:
  "snd (GetParentPID L w (pid proc)) = None \<Longrightarrow>
   isOrphanProcess L w (proc\<lparr>ppid := cached\<rparr>) tmuxPIDs = isOrphanProcess L w proc tmuxPIDs"
  by (cases "GetParentPID L w (pid proc)") (simp add: isOrphanProcess_def)

lemma deep_trace:
  "isOrphanProcess_traced chain20 () deep_candidate (\<lambda>p. False) =
    (True,
  [ParentLookup 121, RegistryTest 120, ParentLookup 120, RegistryTest 119,
   ParentLookup 119, RegistryTest 118, ParentLookup 118, RegistryTest 117,
   ParentLookup 117, RegistryTest 116, ParentLookup 116, RegistryTest 115,
   ParentLookup 115, RegistryTest 114, ParentLookup 114, RegistryTest 113,
   ParentLookup 113])"
  by code_simp

text \<open>Below twenty ancestors and no tmux the candidate is classified orphaned, and
  the walk has called \<^verbatim>\<open>GetParentPID\<close> nine times: once for the candidate, once for
  each of the eight ancestors it examined.\<close>

theorem ancestry_nine_lookups_counterexample:
  "isOrphanProcess chain20 () deep_candidate (\<lambda>p. False)
   \<and> \<not> length (filter is_lookup (snd (isOrphanProcess_traced chain20 () deep_candidate (\<lambda>p. False)))) \<le> 8"
  by code_simp

text \<open>C5, as the code has it: for every candidate the walk examines at most 8
  ancestors and makes at most 9 parent lookups (one for the candidate itself, one
  for each ancestor examined); no ancestor is examined twice (the walk stops at a
  cycle) and every ancestor examined is above PID 1; it starts from the parent read
  now, not from the cached one, whenever that read succeeds; and the candidate below
  twenty ancestors without tmux is classified orphaned with exactly 8 ancestors
  examined and 9 lookups.\<close>

theorem ancestry_walk_bounded:
  "fst (isOrphanProcess_traced L w proc tmuxPIDs) = isOrphanProcess L w proc tmuxPIDs
   \<and> length (filter is_test (snd (isOrphanProcess_traced L w proc tmuxPIDs))) \<le> 8
   \<and> length (filter is_lookup (snd (isOrphanProcess_traced L w proc tmuxPIDs))) \<le> 9
   \<and> distinct (tested (snd (isOrphanProcess_traced L w proc tmuxPIDs)))
   \<and> list_all (\<lambda>p. 1 < p) (tested (snd (isOrphanProcess_traced L w proc tmuxPIDs)))
   \<and> (snd (GetParentPID L w (pid proc)) = None \<longrightarrow>
        isOrphanProcess L w (proc\<lparr>ppid := cached\<rparr>) tmuxPIDs = isOrphanProcess L w proc tmuxPIDs)
   \<and> isOrphanProcess chain20 () deep_candidate (\<lambda>p. False)
   \<and> length (filter is_test (snd (isOrphanProcess_traced chain20 () deep_candidate (\<lambda>p. False)))) = 8
   \<and> length (filter is_lookup (snd (isOrphanProcess_traced chain20 () deep_candidate (\<lambda>p. False)))) = 9"
proof -
  have "isOrphanProcess chain20 () deep_candidate (\<lambda>p. False)"
    using isOrphanProcess_traced_verdict [of chain20 "()" deep_candidate "\<lambda>p. False"]
    by (simp add: deep_trace)
  moreover have "length (filter is_test (snd (isOrphanProcess_traced chain20 () deep_candidate (\<lambda>p. False)))) = 8"
    by (simp add: deep_trace)
  moreover have "length (filter is_lookup (snd (isOrphanProcess_traced chain20 () deep_candidate (\<lambda>p. False)))) = 9"
    by (simp add: deep_trace)
  ultimately show ?thesis
    using isOrphanProcess_traced_verdict [of L w proc tmuxPIDs]
      isOrphanProcess_traced_tests [of L w proc tmuxPIDs]
      isOrphanProcess_traced_lookups [of L w proc tmuxPIDs]
      isOrphanProcess_traced_tested [of L w proc tmuxPIDs]
      isOrphanProcess_rereads_parent [of L w proc cached tmuxPIDs]
    by blast
qed

text \<open>The parent of the deep candidate can be read, so a wrong cached parent changes
  nothing.\<close>

theorem ancestry_walk_bounded_witness:
  "snd (GetParentPID chain20 () (pid deep_candidate)) = None
   \<and> isOrphanProcess chain20 () (deep_candidate\<lparr>ppid := 7\<rparr>) (\<lambda>p. False)
       = isOrphanProcess chain20 () deep_candidate (\<lambda>p. False)
   \<and> length (filter is_lookup (snd (isOrphanProcess_traced chain20 () deep_candidate (\<lambda>p. False)))) = 9"
proof -
  have h: "snd (GetParentPID chain20 () (pid deep_candidate)) = None"
    by (simp add: chain20_def deep_candidate_def)
  from ancestry_walk_bounded [of chain20 "()" deep_candidate "\<lambda>p. False" 7] h
  show ?thesis by blast
qed

section \<open>When the remediation passes fail\<close>

lemma term_simps [simp]:
  "term_succeeded (p, sig, err) = (sig = SIGTERM \<and> err = None)"
  "term_failed (p, sig, err) = (sig = SIGTERM \<and> err \<noteq> None)"
  by (simp_all add: term_succeeded_def term_failed_def)

lemma SIGTERM_not_probe [simp]: "SIGTERM \<noteq> 0" "0 \<noteq> SIGTERM"
  by (simp_all add: SIGTERM_def)

lemma fix_init_inv: "fix_inv (fix_init w)"
  by (simp add: fix_inv_def fix_init_def)

lemma fix_step_inv: "fix_inv st \<Longrightarrow> fix_inv (fix_step L False panePIDSet st proc)"
  by (auto simp: fix_inv_def fix_step_def Let_def split: prod.splits)

lemma fix_loop_inv: "fix_inv st \<Longrightarrow> fix_inv (fix_loop L False panePIDSet procs st)"
  by (induction procs arbitrary: st) (simp_all add: fix_step_inv)

lemma kill_action_simps [simp]:
  "kill_failed (KillSessionCall s e) = (e \<noteq> None)" "\<not> kill_failed (LogSessionDeath s)"
  "kill_succeeded (KillSessionCall s e) = (e = None)" "\<not> kill_succeeded (LogSessionDeath s)"
  by (simp_all add: kill_failed_def kill_succeeded_def)

lemma fix_sessions_loop_inv:
  "session_inv st \<Longrightarrow> session_inv (fix_sessions_loop env sessions st)"
proof (induction sessions arbitrary: st)
  case Nil
  then show ?case by simp
next
  case (Cons sess sessions)
  show ?case
  proof (cases "isCrewSession sess")
    case True
    with Cons show ?thesis by simp
  next
    case False
    obtain err w' where k: "KillSession env (s_world st) sess = (err, w')"
      by (cases "KillSession env (s_world st) sess")
    have "session_inv \<lparr>s_world = w', s_lastErr = (if err \<noteq> None then err else s_lastErr st),
                s_actions = s_actions st @ [LogSessionDeath sess, KillSessionCall sess err]\<rparr>"
      using Cons.prems by (auto simp: session_inv_def)
    from Cons.IH [OF this] show ?thesis using False k by simp
  qed
qed

lemma Fix_processes_real:
  assumes "snd (ListPanePIDs L w) = None" and "\<not> DryRun ctx" and "orphanProcesses c \<noteq> []"
  shows "snd (Fix_processes L c ctx w)
           = fix_loop L False (fix_registry L w) (orphanProcesses c) (fix_init w)"
    and "fst (Fix_processes L c ctx w)
           = (let st = fix_loop L False (fix_registry L w) (orphanProcesses c) (fix_init w)
              in if lastErr st \<noteq> None \<and> killed st = 0 then lastErr st else None)"
  using assms
  by (cases "ListPanePIDs L w"; simp add: Fix_processes_def fix_registry_def Let_def)+

lemma Fix_processes_policy:
  assumes "snd (ListPanePIDs L w) = None" and "\<not> DryRun ctx"
  shows "(fst (Fix_processes L c ctx w) \<noteq> None)
         = (filter term_succeeded (signals (snd (Fix_processes L c ctx w))) = []
            \<and> (\<exists>x\<in>set (signals (snd (Fix_processes L c ctx w))). term_failed x))"
proof (cases "orphanProcesses c = []")
  case True
  then show ?thesis by (simp add: Fix_processes_def fix_init_def)
next
  case False
  let ?st = "fix_loop L False (fix_registry L w) (orphanProcesses c) (fix_init w)"
  have inv: "fix_inv ?st" by (rule fix_loop_inv [OF fix_init_inv])
  show ?thesis
    unfolding Fix_processes_real [OF assms False]
    using inv by (auto simp: fix_inv_def Let_def)
qed

lemma Fix_processes_killed_no_error:
  "0 < killed (snd (Fix_processes L c ctx w)) \<Longrightarrow> fst (Fix_processes L c ctx w) = None"
  by (cases "ListPanePIDs L w")
     (auto simp: Fix_processes_def Let_def fix_init_def split: if_splits)

lemma Fix_sessions_policy:
  "(fst (Fix_sessions env c ctx w) \<noteq> None)
     = (\<exists>a\<in>set (s_actions (snd (Fix_sessions env c ctx w))). kill_failed a)"
proof -
  have "session_inv (fix_sessions_loop env (orphanSessions c)
          \<lparr>s_world = w, s_lastErr = None, s_actions = []\<rparr>)"
    by (rule fix_sessions_loop_inv) (simp add: session_inv_def)
  then show ?thesis
    by (auto simp: Fix_sessions_def Let_def session_inv_def)
qed

lemma failed_kill_errors_simps [simp]:
  "failed_kill_errors [] = []"
  "failed_kill_errors (acts @ acts') = failed_kill_errors acts @ failed_kill_errors acts'"
  "failed_kill_errors (LogSessionDeath s # acts) = failed_kill_errors acts"
  "failed_kill_errors (KillSessionCall s None # acts) = failed_kill_errors acts"
  "failed_kill_errors (KillSessionCall s (Some e) # acts) = e # failed_kill_errors acts"
  by (simp_all add: failed_kill_errors_def)

lemma failed_term_errors_simps [simp]:
  "failed_term_errors [] = []"
  "failed_term_errors (sigs @ sigs') = failed_term_errors sigs @ failed_term_errors sigs'"
  "failed_term_errors ((p, sig, None) # sigs) = failed_term_errors sigs"
  "failed_term_errors ((p, sig, Some e) # sigs)
     = (if sig = SIGTERM then FailedToKillPID p e # failed_term_errors sigs
        else failed_term_errors sigs)"
  by (simp_all add: failed_term_errors_def)

lemma fix_sessions_loop_last_inv:
  "session_last_inv st \<Longrightarrow> session_last_inv (fix_sessions_loop env sessions st)"
proof (induction sessions arbitrary: st)
  case Nil
  then show ?case by simp
next
  case (Cons sess sessions)
  show ?case
  proof (cases "isCrewSession sess")
    case True
    with Cons show ?thesis by simp
  next
    case False
    obtain err w' where k: "KillSession env (s_world st) sess = (err, w')"
      by (cases "KillSession env (s_world st) sess")
    have "session_last_inv \<lparr>s_world = w', s_lastErr = (if err \<noteq> None then err else s_lastErr st),
                s_actions = s_actions st @ [LogSessionDeath sess, KillSessionCall sess err]\<rparr>"
      using Cons.prems by (cases err) (auto simp: session_last_inv_def last_error_def)
    from Cons.IH [OF this] show ?thesis using False k by simp
  qed
qed

lemma Fix_sessions_last:
  "fst (Fix_sessions env c ctx w)
     = last_error (failed_kill_errors (s_actions (snd (Fix_sessions env c ctx w))))"
proof -
  have "session_last_inv (fix_sessions_loop env (orphanSessions c)
          \<lparr>s_world = w, s_lastErr = None, s_actions = []\<rparr>)"
    by (rule fix_sessions_loop_last_inv) (simp add: session_last_inv_def last_error_def)
  then show ?thesis
    by (auto simp: Fix_sessions_def Let_def session_last_inv_def last_error_def)
qed

lemma fix_step_last_inv:
  "fix_last_inv st \<Longrightarrow> fix_last_inv (fix_step L dryRun panePIDSet st proc)"
  by (auto simp: fix_last_inv_def fix_step_def Let_def last_error_def split: prod.splits)

lemma fix_loop_last_inv:
  "fix_last_inv st \<Longrightarrow> fix_last_inv (fix_loop L dryRun panePIDSet procs st)"
  by (induction procs arbitrary: st) (simp_all add: fix_step_last_inv)

lemma Fix_processes_last:
  assumes "snd (ListPanePIDs L w) = None" and "\<not> DryRun ctx"
  shows "fst (Fix_processes L c ctx w)
         = (if filter term_succeeded (signals (snd (Fix_processes L c ctx w))) = []
            then last_error (failed_term_errors (signals (snd (Fix_processes L c ctx w))))
            else None)"
proof (cases "orphanProcesses c = []")
  case True
  then show ?thesis by (simp add: Fix_processes_def fix_init_def last_error_def)
next
  case False
  let ?st = "fix_loop L False (fix_registry L w) (orphanProcesses c) (fix_init w)"
  have inv: "fix_inv ?st" by (rule fix_loop_inv [OF fix_init_inv])
  have "fix_last_inv (fix_init w)" by (simp add: fix_last_inv_def fix_init_def last_error_def)
  then have linv: "fix_last_inv ?st" by (rule fix_loop_last_inv)
  show ?thesis
    unfolding Fix_processes_real [OF assms False]
    using inv linv by (auto simp: fix_inv_def fix_last_inv_def Let_def last_error_def)
qed

lemma Fix_processes_dry_no_error:
  "DryRun ctx \<Longrightarrow> snd (ListPanePIDs L w) = None \<Longrightarrow> fst (Fix_processes L c ctx w) = None"
  by (cases "ListPanePIDs L w") (simp add: Fix_processes_def Let_def)

lemma Fix_processes_empty_no_error:
  "orphanProcesses c = [] \<Longrightarrow> fst (Fix_processes L c ctx w) = None"
  by (simp add: Fix_processes_def)

text \<open>C3, as the code has it. The orphan-process \<open>Fix\<close> returns, in each of its
  four cases: nothing when the cache is empty; otherwise the error "failed to list
  pane PIDs" when the resample of the panes fails, before anything is sent, dry run
  or not; otherwise nothing when it is a dry run; otherwise the last "failed to kill
  PID" error when no \<^verbatim>\<open>SIGTERM\<close> was accepted, and nothing when one was accepted.
  So, with the panes resampled and no dry run, it returns an error exactly when no
  \<^verbatim>\<open>SIGTERM\<close> was accepted and at least one was refused, and whenever it counts a
  kill it returns no error. The orphan-session \<open>Fix\<close> returns the error of the last
  kill that tmux refused, and so an error exactly when tmux refused at least one
  kill, however many it carried out.\<close>

theorem Fix_error_policy:
  "(snd (ListPanePIDs L w) = None \<and> \<not> DryRun ctx \<longrightarrow>
      fst (Fix_processes L c ctx w)
       = (if filter term_succeeded (signals (snd (Fix_processes L c ctx w))) = []
          then last_error (failed_term_errors (signals (snd (Fix_processes L c ctx w))))
          else None)
      \<and> (fst (Fix_processes L c ctx w) \<noteq> None)
         = (filter term_succeeded (signals (snd (Fix_processes L c ctx w))) = []
            \<and> (\<exists>x\<in>set (signals (snd (Fix_processes L c ctx w))). term_failed x)))
   \<and> (0 < killed (snd (Fix_processes L c ctx w)) \<longrightarrow> fst (Fix_processes L c ctx w) = None)
   \<and> (orphanProcesses c \<noteq> [] \<and> snd (ListPanePIDs L w) = Some e \<longrightarrow>
        fst (Fix_processes L c ctx w) = Some (FailedToListPanePIDs e)
        \<and> signals (snd (Fix_processes L c ctx w)) = [])
   \<and> (DryRun ctx \<and> snd (ListPanePIDs L w) = None \<longrightarrow> fst (Fix_processes L c ctx w) = None)
   \<and> (orphanProcesses c = [] \<longrightarrow> fst (Fix_processes L c ctx w) = None)
   \<and> fst (Fix_sessions env sc sctx sw)
       = last_error (failed_kill_errors (s_actions (snd (Fix_sessions env sc sctx sw))))
   \<and> (fst (Fix_sessions env sc sctx sw) \<noteq> None)
       = (\<exists>a\<in>set (s_actions (snd (Fix_sessions env sc sctx sw))). kill_failed a)"
proof -
  have "orphanProcesses c \<noteq> [] \<and> snd (ListPanePIDs L w) = Some e \<longrightarrow>
        fst (Fix_processes L c ctx w) = Some (FailedToListPanePIDs e)
        \<and> signals (snd (Fix_processes L c ctx w)) = []"
    by (cases "ListPanePIDs L w") (simp add: Fix_processes_def fix_init_def)
  then show ?thesis
    using Fix_processes_policy [of L w ctx c] Fix_processes_killed_no_error [of L c ctx w]
      Fix_processes_last [of L w ctx c] Fix_processes_dry_no_error [of ctx L w c]
      Fix_processes_empty_no_error [of c L ctx w]
      Fix_sessions_policy [of env sc sctx sw] Fix_sessions_last [of env sc sctx sw]
    by blast
qed

lemma race_fix:
  "Fix_processes race_lister race_cache town_ctx 1 =
  (None,
  \<lparr>p_world = 1, killed = 1, skipped = 1,
     lastErr = Some (FailedToKillPID 2003 (Errno ESRCH)),
     signals =
       [(2001, 0, None), (2001, 15, None), (2003, 0, None),
        (2003, 15, Some (Errno ESRCH))],
     printed = []\<rparr>)"
  by code_simp

lemma partial_fix:
  "Fix_sessions partial_env partial_cache town_ctx () =
   (Some (Failure ''session not found''),
  \<lparr>s_world = (), s_lastErr = Some (Failure ''session not found''),
     s_actions =
       [LogSessionDeath ''gt-ghost-alpha'',
        KillSessionCall ''gt-ghost-alpha'' None,
        LogSessionDeath ''gt-ghost-beta'',
        KillSessionCall ''gt-ghost-beta''
         (Some (Failure ''session not found''))]\<rparr>)"
  by code_simp

lemma two_failures_actions:
  "s_actions (snd (Fix_sessions two_failures_env two_failures_cache town_ctx ()))
     = [LogSessionDeath ''gt-ghost-alpha'', KillSessionCall ''gt-ghost-alpha'' (Some (Failure ''first'')),
        LogSessionDeath ''gt-ghost-beta'', KillSessionCall ''gt-ghost-beta'' (Some (Failure ''second'')),
        LogSessionDeath ''gt-ghost-gamma'', KillSessionCall ''gt-ghost-gamma'' None]"
  by code_simp

lemma refusing_signals:
  "signals (snd (Fix_processes refusing_lister refusing_cache town_ctx 1))
     = [(2001, 0, None), (2001, SIGTERM, Some (Errno EPERM)),
        (2003, 0, None), (2003, SIGTERM, Some (Errno EPERM))]"
  by code_simp

text \<open>tmux kills the first orphan session and fails on the second: the session
  \<open>Fix\<close> returns the error although one kill succeeded.\<close>

theorem Fix_sessions_partial_success_counterexample:
  "KillSessionCall ''gt-ghost-alpha'' None
     \<in> set (s_actions (snd (Fix_sessions partial_env partial_cache town_ctx ())))
   \<and> kill_succeeded (KillSessionCall ''gt-ghost-alpha'' None)
   \<and> fst (Fix_sessions partial_env partial_cache town_ctx ()) = Some (Failure ''session not found'')"
  by (simp add: partial_fix)

text \<open>On the machine of the race, one \<^verbatim>\<open>SIGTERM\<close> is accepted and one refused, and
  the process \<open>Fix\<close> returns no error, as does its dry run. Where both are refused
  it returns the error of the second. Where tmux refuses two session kills and
  carries out a third, the session \<open>Fix\<close> returns the error of the second
  refusal.\<close>

theorem Fix_error_policy_witness:
  "snd (ListPanePIDs race_lister 1) = None \<and> \<not> DryRun town_ctx
   \<and> 0 < killed (snd (Fix_processes race_lister race_cache town_ctx 1))
   \<and> (\<exists>x\<in>set (signals (snd (Fix_processes race_lister race_cache town_ctx 1))). term_failed x)
   \<and> fst (Fix_processes race_lister race_cache town_ctx 1) = None
   \<and> DryRun dry_ctx
   \<and> fst (Fix_processes race_lister race_cache dry_ctx 1) = None
   \<and> failed_term_errors (signals (snd (Fix_processes refusing_lister refusing_cache town_ctx 1)))
       = [FailedToKillPID 2001 (Errno EPERM), FailedToKillPID 2003 (Errno EPERM)]
   \<and> fst (Fix_processes refusing_lister refusing_cache town_ctx 1)
       = Some (FailedToKillPID 2003 (Errno EPERM))
   \<and> failed_kill_errors (s_actions (snd (Fix_sessions two_failures_env two_failures_cache town_ctx ())))
       = [Failure ''first'', Failure ''second'']
   \<and> fst (Fix_sessions two_failures_env two_failures_cache town_ctx ()) = Some (Failure ''second'')"
proof -
  have p: "snd (ListPanePIDs race_lister 1) = None" by (simp add: race_lister_def)
  have p': "snd (ListPanePIDs refusing_lister 1) = None"
    by (simp add: refusing_lister_def race_lister_def)
  have d: "\<not> DryRun town_ctx" by (simp add: town_ctx_def)
  have d': "DryRun dry_ctx" by (simp add: dry_ctx_def)
  have k: "0 < killed (snd (Fix_processes race_lister race_cache town_ctx 1))"
    unfolding race_fix by simp
  have f: "\<exists>x\<in>set (signals (snd (Fix_processes race_lister race_cache town_ctx 1))). term_failed x"
    unfolding race_fix by (simp add: SIGTERM_def)
  have s: "failed_kill_errors (s_actions (snd (Fix_sessions two_failures_env two_failures_cache town_ctx ())))
       = [Failure ''first'', Failure ''second'']"
    unfolding two_failures_actions by simp
  have r: "failed_term_errors (signals (snd (Fix_processes refusing_lister refusing_cache town_ctx 1)))
       = [FailedToKillPID 2001 (Errno EPERM), FailedToKillPID 2003 (Errno EPERM)]"
    unfolding refusing_signals by simp
  have r': "filter term_succeeded (signals (snd (Fix_processes refusing_lister refusing_cache town_ctx 1))) = []"
    unfolding refusing_signals by simp
  from Fix_error_policy [of race_lister 1 town_ctx race_cache _ two_failures_env two_failures_cache town_ctx "()"]
    k s
  have a: "fst (Fix_processes race_lister race_cache town_ctx 1) = None"
    and b: "fst (Fix_sessions two_failures_env two_failures_cache town_ctx ()) = Some (Failure ''second'')"
    by (simp_all add: last_error_def)
  from Fix_error_policy [of race_lister 1 dry_ctx race_cache _ two_failures_env two_failures_cache town_ctx "()"]
    p d'
  have c: "fst (Fix_processes race_lister race_cache dry_ctx 1) = None" by blast
  from Fix_error_policy [of refusing_lister 1 town_ctx refusing_cache _ two_failures_env two_failures_cache town_ctx "()"]
    p' d r r'
  have e: "fst (Fix_processes refusing_lister refusing_cache town_ctx 1)
       = Some (FailedToKillPID 2003 (Errno EPERM))"
    by (simp add: last_error_def)
  from p d d' k f s r a b c e show ?thesis by blast
qed

section \<open>Re-verification before the kill\<close>





















section \<open>The dry run\<close>

lemma would_kill_pids_simps [simp]:
  "would_kill_pids [] = []"
  "would_kill_pids (WouldKill p c # ls) = p # would_kill_pids ls"
  "would_kill_pids (WouldSkip n # ls) = would_kill_pids ls"
  "would_kill_pids (ls @ ls') = would_kill_pids ls @ would_kill_pids ls'"
  by (simp_all add: would_kill_pids_def)

lemma sigterm_pids_simps [simp]:
  "sigterm_pids [] = []"
  "sigterm_pids ((p, sig, err) # sigs)
     = (if sig = SIGTERM then p # sigterm_pids sigs else sigterm_pids sigs)"
  "sigterm_pids (sigs @ sigs') = sigterm_pids sigs @ sigterm_pids sigs'"
  by (simp_all add: sigterm_pids_def)










end
